theory Spec2Isabelle
  imports Main
begin

section \<open>The item service of main.go\<close>

text \<open>
  The program is one Go file: five HTTP handlers over a single SQLite table
  \<^verbatim>\<open>items(id INTEGER PRIMARY KEY AUTOINCREMENT, name TEXT NOT NULL UNIQUE)\<close>.
  The handlers are embedded as functions from the request data and the stored table to
  a response and the table afterwards. Each handler issues one statement, under the mutex
  \<open>dbMu\<close>, and is taken as one step on the table.

  Modelling decisions:
  \<^item> Go's \<open>int\<close> is taken as 64 bits wide (amd64, arm64), the width of an SQLite rowid,
    so \<open>int(id)\<close> in \<open>createItemHandler\<close> is the identity. Ids are HOL integers and the
    two places where the range matters (\<open>strconv.Atoi\<close>, the largest rowid) write the
    bound out.
  \<^item> A request body is represented by the outcome of
    \<open>json.NewDecoder(r.Body).Decode(&item)\<close> into a zero \<open>Item\<close>: an error, or the
    decoded \<open>Item\<close> (a field absent from the body keeps its zero value).
  \<^item> A response is its status code and its payload; JSON payloads are JSON values,
    not their text.
  \<^item> The store can fail for reasons outside the table (I/O, connectivity). The
    failure point of a request is an explicit input of type \<open>fault\<close>, so that each
    \<open>if err != nil\<close> of the source is a branch of the model. A failing statement
    leaves the table as it was (SQLite rolls a failed statement back).
\<close>

subsection \<open>Data\<close>

record Item =
  ID :: int
  Name :: string

datatype json =
    JNull
  | JInt int
  | JStr string
  | JArr "json list"
  | JObj "(string \<times> json) list"

text \<open>A Go slice is \<open>nil\<close> or has a backing array; \<open>append\<close> to \<open>nil\<close> allocates.\<close>

datatype 'a slice = NilSlice | Slice "'a list"

fun append_slice :: "'a slice \<Rightarrow> 'a \<Rightarrow> 'a slice" where
  "append_slice NilSlice x = Slice [x]"
| "append_slice (Slice xs) x = Slice (xs @ [x])"

text \<open>
  \<open>encoding/json\<close> on the struct \<open>Item\<close> with its tags \<open>json:"id"\<close> and
  \<open>json:"name"\<close>, and on \<open>[]Item\<close>: a nil slice encodes as the JSON value \<open>null\<close>,
  any other slice as an array.
\<close>

definition encode_Item :: "Item \<Rightarrow> json" where
  "encode_Item it = JObj [(''id'', JInt (ID it)), (''name'', JStr (Name it))]"

fun encode_Items :: "Item slice \<Rightarrow> json" where
  "encode_Items NilSlice = JNull"
| "encode_Items (Slice xs) = JArr (map encode_Item xs)"

datatype body = DecodeError | Decoded Item

datatype payload = Empty | Plain string | Json json

record response =
  status :: nat
  payload :: payload

text \<open>\<open>http.Error\<close> writes the status and the message followed by a newline.\<close>

definition http_Error :: "string \<Rightarrow> nat \<Rightarrow> response" where
  "http_Error msg code = \<lparr>status = code, payload = Plain (msg @ [CHR 0x0A])\<rparr>"

subsection \<open>strconv.Atoi\<close>

text \<open>
  Base 10, an optional sign, at least one digit, nothing else, and the value within the
  range of a 64-bit \<open>int\<close>; every other string is an error.
\<close>

definition digit_val :: "char \<Rightarrow> int option" where
  "digit_val c =
     (let k = (of_char c :: int) in if 48 \<le> k \<and> k \<le> 57 then Some (k - 48) else None)"

fun parse_digits :: "int \<Rightarrow> string \<Rightarrow> int option" where
  "parse_digits n [] = Some n"
| "parse_digits n (c # cs) =
     (case digit_val c of None \<Rightarrow> None | Some d \<Rightarrow> parse_digits (n * 10 + d) cs)"

definition Atoi :: "string \<Rightarrow> int option" where
  "Atoi s =
     (case s of
        [] \<Rightarrow> None
      | c # cs \<Rightarrow>
          (let ds = (if c = CHR ''-'' \<or> c = CHR ''+'' then cs else s) in
           if ds = [] then None
           else
             (case parse_digits 0 ds of
                None \<Rightarrow> None
              | Some n \<Rightarrow>
                  (let v = (if c = CHR ''-'' then - n else n) in
                   if - 9223372036854775808 \<le> v \<and> v \<le> 9223372036854775807
                   then Some v else None))))"

subsection \<open>The store\<close>

text \<open>
  The table in storage order, and the counter that \<open>AUTOINCREMENT\<close> keeps in
  \<open>sqlite_sequence\<close>: the largest rowid ever given to a row of \<open>items\<close>.
\<close>

record db =
  items :: "Item list"
  sqlite_seq :: int

datatype sql_error = ErrNoRows | ConstraintUnique | DatabaseFull | IOError

text \<open>
  Where a request meets a store failure that the table does not explain:
  the statement itself (\<open>db.Query\<close>, \<open>db.QueryRow\<close>, \<open>db.Exec\<close>), \<open>rows.Scan\<close>,
  \<open>rows.Err\<close>, or reading the result (\<open>res.LastInsertId\<close>, \<open>res.RowsAffected\<close>).
\<close>

datatype fault = NoFault | StmtFault | ScanFault | IterFault | ResultFault

record exec_result =
  last_insert_id :: int
  rows_affected :: nat

definition max_rowid :: int where
  "max_rowid = 9223372036854775807"

definition empty_db :: db where
  "empty_db = \<lparr>items = [], sqlite_seq = 0\<rparr>"

text \<open>
  \<open>initDB\<close>: \<open>sql.Open\<close>, \<open>db.Ping\<close> and \<open>CREATE TABLE IF NOT EXISTS\<close>, each fatal on
  error (\<open>None\<close>). An existing table is kept, a missing one is created empty.
\<close>

definition initDB :: "bool \<Rightarrow> bool \<Rightarrow> bool \<Rightarrow> db option \<Rightarrow> db option" where
  "initDB open_ok ping_ok create_ok existing =
     (if \<not> open_ok then None
      else if \<not> ping_ok then None
      else if \<not> create_ok then None
      else (case existing of None \<Rightarrow> Some empty_db | Some s \<Rightarrow> Some s))"

text \<open>
  The rowid \<open>AUTOINCREMENT\<close> builds on: the largest of the rowids in the table and the
  counter.
\<close>

definition largest_rowid :: "db \<Rightarrow> int" where
  "largest_rowid s = fold max (map ID (items s)) (sqlite_seq s)"

text \<open>\<^verbatim>\<open>SELECT id, name FROM items\<close>\<close>

definition db_Query_all :: "fault \<Rightarrow> db \<Rightarrow> (sql_error + Item list) \<times> db" where
  "db_Query_all f s = (if f = StmtFault then (Inl IOError, s) else (Inr (items s), s))"

text \<open>
  \<^verbatim>\<open>SELECT id, name FROM items WHERE id = ?\<close> through \<open>db.QueryRow\<close> and \<open>row.Scan\<close>:
  the error of the query is delivered by \<open>Scan\<close>, \<open>sql.ErrNoRows\<close> when no row matches.
\<close>

definition db_QueryRow_Scan :: "fault \<Rightarrow> int \<Rightarrow> db \<Rightarrow> (sql_error + Item) \<times> db" where
  "db_QueryRow_Scan f i s =
     (if f = StmtFault \<or> f = IterFault then (Inl IOError, s)
      else
        (case find (\<lambda>r. ID r = i) (items s) of
           None \<Rightarrow> (Inl ErrNoRows, s)
         | Some r \<Rightarrow> if f = ScanFault then (Inl IOError, s) else (Inr r, s)))"

text \<open>
  \<^verbatim>\<open>INSERT INTO items (name) VALUES (?)\<close>: the new rowid is one more than the largest
  ever used, the insert fails when that one is the largest rowid there is, and
  \<open>UNIQUE\<close> rejects a name that a row already has.
\<close>

definition db_Exec_insert :: "fault \<Rightarrow> string \<Rightarrow> db \<Rightarrow> (sql_error + exec_result) \<times> db" where
  "db_Exec_insert f n s =
     (if f = StmtFault then (Inl IOError, s)
      else if max_rowid \<le> largest_rowid s then (Inl DatabaseFull, s)
      else if n \<in> set (map Name (items s)) then (Inl ConstraintUnique, s)
      else
        (let i = largest_rowid s + 1 in
         (Inr \<lparr>last_insert_id = i, rows_affected = 1\<rparr>,
          s\<lparr>items := items s @ [\<lparr>ID = i, Name = n\<rparr>], sqlite_seq := i\<rparr>)))"

text \<open>
  \<^verbatim>\<open>UPDATE items SET name = ? WHERE id = ?\<close>: every row the \<open>WHERE\<close> matches counts as
  affected, also when its name stays the same; \<open>UNIQUE\<close> rejects the name of another row.
\<close>

definition db_Exec_update :: "fault \<Rightarrow> string \<Rightarrow> int \<Rightarrow> db \<Rightarrow> (sql_error + exec_result) \<times> db" where
  "db_Exec_update f n i s =
     (if f = StmtFault then (Inl IOError, s)
      else if (\<exists>r \<in> set (items s). ID r = i) \<and> (\<exists>r \<in> set (items s). ID r \<noteq> i \<and> Name r = n)
      then (Inl ConstraintUnique, s)
      else
        (Inr \<lparr>last_insert_id = sqlite_seq s,
              rows_affected = length (filter (\<lambda>r. ID r = i) (items s))\<rparr>,
         s\<lparr>items := map (\<lambda>r. if ID r = i then r\<lparr>Name := n\<rparr> else r) (items s)\<rparr>))"

text \<open>\<^verbatim>\<open>DELETE FROM items WHERE id = ?\<close>\<close>

definition db_Exec_delete :: "fault \<Rightarrow> int \<Rightarrow> db \<Rightarrow> (sql_error + exec_result) \<times> db" where
  "db_Exec_delete f i s =
     (if f = StmtFault then (Inl IOError, s)
      else
        (Inr \<lparr>last_insert_id = sqlite_seq s,
              rows_affected = length (filter (\<lambda>r. ID r = i) (items s))\<rparr>,
         s\<lparr>items := filter (\<lambda>r. ID r \<noteq> i) (items s)\<rparr>))"

definition LastInsertId :: "fault \<Rightarrow> exec_result \<Rightarrow> sql_error + int" where
  "LastInsertId f res = (if f = ResultFault then Inl IOError else Inr (last_insert_id res))"

definition RowsAffected :: "fault \<Rightarrow> exec_result \<Rightarrow> sql_error + nat" where
  "RowsAffected f res = (if f = ResultFault then Inl IOError else Inr (rows_affected res))"

subsection \<open>The handlers\<close>

text \<open>The loop \<open>for rows.Next() { rows.Scan(...); items = append(items, item) }\<close>.\<close>

fun scan_rows :: "fault \<Rightarrow> Item list \<Rightarrow> Item slice \<Rightarrow> sql_error + Item slice" where
  "scan_rows f [] acc = Inr acc"
| "scan_rows f (r # rs) acc =
     (if f = ScanFault then Inl IOError else scan_rows f rs (append_slice acc r))"

definition getItemsHandler :: "fault \<Rightarrow> db \<Rightarrow> response \<times> db" where
  "getItemsHandler f s =
     (case db_Query_all f s of
        (Inl e, s') \<Rightarrow> (http_Error ''Failed to retrieve items'' 500, s')
      | (Inr rows, s') \<Rightarrow>
          (case scan_rows f rows NilSlice of
             Inl e \<Rightarrow> (http_Error ''Failed to scan item'' 500, s')
           | Inr its \<Rightarrow>
               if f = IterFault then (http_Error ''Error iterating rows'' 500, s')
               else (\<lparr>status = 200, payload = Json (encode_Items its)\<rparr>, s')))"

definition getItemByIDHandler :: "fault \<Rightarrow> string \<Rightarrow> db \<Rightarrow> response \<times> db" where
  "getItemByIDHandler f idStr s =
     (case Atoi idStr of
        None \<Rightarrow> (http_Error ''Invalid item ID'' 400, s)
      | Some i \<Rightarrow>
          (case db_QueryRow_Scan f i s of
             (Inl ErrNoRows, s') \<Rightarrow> (http_Error ''Item not found'' 404, s')
           | (Inl e, s') \<Rightarrow> (http_Error ''Failed to retrieve item'' 500, s')
           | (Inr item, s') \<Rightarrow> (\<lparr>status = 200, payload = Json (encode_Item item)\<rparr>, s')))"

definition createItemHandler :: "fault \<Rightarrow> body \<Rightarrow> db \<Rightarrow> response \<times> db" where
  "createItemHandler f b s =
     (case b of
        DecodeError \<Rightarrow> (http_Error ''Invalid request body'' 400, s)
      | Decoded item \<Rightarrow>
          (case db_Exec_insert f (Name item) s of
             (Inl e, s') \<Rightarrow> (http_Error ''Failed to create item'' 500, s')
           | (Inr res, s') \<Rightarrow>
               (case LastInsertId f res of
                  Inl e \<Rightarrow> (http_Error ''Failed to get last insert ID'' 500, s')
                | Inr i \<Rightarrow>
                    (\<lparr>status = 201, payload = Json (encode_Item (item\<lparr>ID := i\<rparr>))\<rparr>, s'))))"

definition updateItemHandler :: "fault \<Rightarrow> string \<Rightarrow> body \<Rightarrow> db \<Rightarrow> response \<times> db" where
  "updateItemHandler f idStr b s =
     (case Atoi idStr of
        None \<Rightarrow> (http_Error ''Invalid item ID'' 400, s)
      | Some i \<Rightarrow>
          (case b of
             DecodeError \<Rightarrow> (http_Error ''Invalid request body'' 400, s)
           | Decoded item \<Rightarrow>
               (case db_Exec_update f (Name item) i s of
                  (Inl e, s') \<Rightarrow> (http_Error ''Failed to update item'' 500, s')
                | (Inr res, s') \<Rightarrow>
                    (case RowsAffected f res of
                       Inl e \<Rightarrow> (http_Error ''Failed to get rows affected'' 500, s')
                     | Inr n \<Rightarrow>
                         if n = 0
                         then (http_Error ''Item not found or no changes made'' 404, s')
                         else
                           (\<lparr>status = 200, payload = Json (encode_Item (item\<lparr>ID := i\<rparr>))\<rparr>,
                            s')))))"

definition deleteItemHandler :: "fault \<Rightarrow> string \<Rightarrow> db \<Rightarrow> response \<times> db" where
  "deleteItemHandler f idStr s =
     (case Atoi idStr of
        None \<Rightarrow> (http_Error ''Invalid item ID'' 400, s)
      | Some i \<Rightarrow>
          (case db_Exec_delete f i s of
             (Inl e, s') \<Rightarrow> (http_Error ''Failed to delete item'' 500, s')
           | (Inr res, s') \<Rightarrow>
               (case RowsAffected f res of
                  Inl e \<Rightarrow> (http_Error ''Failed to get rows affected'' 500, s')
                | Inr n \<Rightarrow>
                    if n = 0 then (http_Error ''Item not found'' 404, s')
                    else (\<lparr>status = 204, payload = Empty\<rparr>, s'))))"

subsection \<open>The routes of main\<close>

datatype request =
    GET_items
  | POST_items body
  | GET_item string
  | PUT_item string body
  | DELETE_item string

fun serve :: "fault \<Rightarrow> request \<Rightarrow> db \<Rightarrow> response \<times> db" where
  "serve f GET_items s = getItemsHandler f s"
| "serve f (POST_items b) s = createItemHandler f b s"
| "serve f (GET_item idStr) s = getItemByIDHandler f idStr s"
| "serve f (PUT_item idStr b) s = updateItemHandler f idStr b s"
| "serve f (DELETE_item idStr) s = deleteItemHandler f idStr s"

text \<open>A run of the service: the requests in the order the mutex admits them.\<close>

fun serve_all :: "(fault \<times> request) list \<Rightarrow> db \<Rightarrow> response list \<times> db" where
  "serve_all [] s = ([], s)"
| "serve_all ((f, rq) # rest) s =
     (case serve f rq s of
        (r, s') \<Rightarrow> (case serve_all rest s' of (rs, s'') \<Rightarrow> (r # rs, s'')))"

inductive reachable :: "db \<Rightarrow> bool" where
  fresh: "reachable empty_db"
| step: "reachable s \<Longrightarrow> serve f rq s = (r, s') \<Longrightarrow> reachable s'"

text \<open>
  A request updates or deletes the row \<open>i\<close> when it is a \<open>PUT\<close> or a \<open>DELETE\<close> whose path
  id parses to \<open>i\<close>.
\<close>

definition touches :: "int \<Rightarrow> request \<Rightarrow> bool" where
  "touches i rq =
     (case rq of
        PUT_item idStr b \<Rightarrow> Atoi idStr = Some i
      | DELETE_item idStr \<Rightarrow> Atoi idStr = Some i
      | _ \<Rightarrow> False)"

subsection \<open>Invariants of the table and the ids a run creates\<close>

text \<open>
  The two constraints of the schema that a table can violate: \<open>PRIMARY KEY\<close> on \<open>id\<close>
  and \<open>UNIQUE\<close> on \<open>name\<close>. (\<open>NOT NULL\<close> holds of every Go string.)
\<close>

definition unique_rows :: "db \<Rightarrow> bool" where
  "unique_rows s \<longleftrightarrow> distinct (map ID (items s)) \<and> distinct (map Name (items s))"

text \<open>No row has a rowid beyond the counter of \<open>sqlite_sequence\<close>.\<close>

definition ids_bounded :: "db \<Rightarrow> bool" where
  "ids_bounded s \<longleftrightarrow> (\<forall>r \<in> set (items s). ID r \<le> sqlite_seq s)"

text \<open>
  The id a response announces as created: the \<open>id\<close> member of the object that a 201
  carries. Only \<open>createItemHandler\<close> answers 201.
\<close>

definition response_id :: "response \<Rightarrow> int option" where
  "response_id r =
     (if status r = 201
      then (case payload r of Json (JObj ((k, JInt i) # kvs)) \<Rightarrow> Some i | _ \<Rightarrow> None)
      else None)"

definition created_ids :: "response list \<Rightarrow> int list" where
  "created_ids rs = List.map_filter response_id rs"

section \<open>Properties\<close>

subsection \<open>Auxiliary facts about the store\<close>

lemmas handler_defs = getItemsHandler_def getItemByIDHandler_def createItemHandler_def
  updateItemHandler_def deleteItemHandler_def

lemmas store_defs = db_Query_all_def db_QueryRow_Scan_def db_Exec_insert_def db_Exec_update_def
  db_Exec_delete_def LastInsertId_def RowsAffected_def

lemma fold_max_lower: "(a::int) \<le> fold max xs a"
proof (induction xs arbitrary: a)
  case Nil
  show ?case by simp
next
  case (Cons x xs)
  have "a \<le> max x a" by simp
  also have "max x a \<le> fold max xs (max x a)" by (rule Cons.IH)
  finally show ?case by simp
qed

lemma fold_max_upper: "x \<in> set xs \<Longrightarrow> (x::int) \<le> fold max xs a"
proof (induction xs arbitrary: a)
  case Nil
  then show ?case by simp
next
  case (Cons y ys)
  show ?case
  proof (cases "x = y")
    case True
    have "y \<le> max y a" by simp
    also have "max y a \<le> fold max ys (max y a)" by (rule fold_max_lower)
    finally show ?thesis using True by simp
  next
    case False
    with Cons.prems have "x \<in> set ys" by simp
    then show ?thesis using Cons.IH by simp
  qed
qed

lemma largest_rowid_seq: "sqlite_seq s \<le> largest_rowid s"
  by (simp add: largest_rowid_def fold_max_lower)

lemma largest_rowid_row: "r \<in> set (items s) \<Longrightarrow> ID r \<le> largest_rowid s"
  by (simp add: largest_rowid_def fold_max_upper)

lemma find_None_iff_ID: "find (\<lambda>r. ID r = i) xs = None \<longleftrightarrow> i \<notin> ID ` set xs"
  by (induction xs) auto

lemma find_append_last:
  "i \<notin> ID ` set xs \<Longrightarrow> find (\<lambda>r. ID r = i) (xs @ [x]) = (if ID x = i then Some x else None)"
  by (induction xs) auto

lemma find_filter_other:
  "j \<noteq> i \<Longrightarrow> find (\<lambda>r. ID r = i) (filter (\<lambda>r. ID r \<noteq> j) xs) = find (\<lambda>r. ID r = i) xs"
  by (induction xs) auto

lemma find_map_other:
  "j \<noteq> i \<Longrightarrow>
   find (\<lambda>r. ID r = i) (map (\<lambda>r. if ID r = j then r\<lparr>Name := n\<rparr> else r) xs) =
   find (\<lambda>r. ID r = i) xs"
  by (induction xs) auto

lemma find_append_keep:
  "find P xs = Some x \<Longrightarrow> find P (xs @ ys) = Some x"
  by (induction xs) (auto split: if_splits)

lemma serve_keeps_row:
  assumes "find (\<lambda>r. ID r = i) (items s) = Some x" and "\<not> touches i rq"
  shows "find (\<lambda>r. ID r = i) (items (snd (serve f rq s))) = Some x"
proof (cases rq)
  case GET_items
  then show ?thesis using assms
    by (simp add: getItemsHandler_def db_Query_all_def split: sum.splits)
next
  case (POST_items b)
  then show ?thesis using assms
    by (simp add: createItemHandler_def db_Exec_insert_def LastInsertId_def Let_def
        find_append_keep split: body.splits)
next
  case (GET_item idStr)
  then show ?thesis using assms
    by (simp add: getItemByIDHandler_def db_QueryRow_Scan_def
        split: option.splits sum.splits sql_error.splits)
next
  case (PUT_item idStr b)
  then show ?thesis using assms
    by (auto simp: updateItemHandler_def db_Exec_update_def RowsAffected_def touches_def
        find_map_other split: option.splits body.splits)
next
  case (DELETE_item idStr)
  then show ?thesis using assms
    by (auto simp: deleteItemHandler_def db_Exec_delete_def RowsAffected_def touches_def
        find_filter_other split: option.splits)
qed

lemma serve_all_keeps_row:
  "find (\<lambda>r. ID r = i) (items s) = Some x \<Longrightarrow> \<forall>p \<in> set reqs. \<not> touches i (snd p) \<Longrightarrow>
   find (\<lambda>r. ID r = i) (items (snd (serve_all reqs s))) = Some x"
proof (induction reqs arbitrary: s)
  case Nil
  then show ?case by simp
next
  case (Cons p reqs)
  obtain f rq where p: "p = (f, rq)" by (cases p)
  obtain r s1 where s1: "serve f rq s = (r, s1)" by (cases "serve f rq s")
  have "\<not> touches i rq" using Cons.prems(2) p by simp
  with Cons.prems(1) have "find (\<lambda>r. ID r = i) (items (snd (serve f rq s))) = Some x"
    by (rule serve_keeps_row)
  then have k: "find (\<lambda>r. ID r = i) (items s1) = Some x" using s1 by simp
  have "find (\<lambda>r. ID r = i) (items (snd (serve_all reqs s1))) = Some x"
    using k Cons.prems(2) by (intro Cons.IH) simp_all
  then show ?case using p s1 by (cases "serve_all reqs s1") simp
qed

lemma get_of_found:
  "find (\<lambda>r. ID r = i) (items s) = Some x \<Longrightarrow> Atoi idStr = Some i \<Longrightarrow>
   getItemByIDHandler NoFault idStr s = (\<lparr>status = 200, payload = Json (encode_Item x)\<rparr>, s)"
  by (simp add: getItemByIDHandler_def db_QueryRow_Scan_def)

lemma map_rename_absent:
  "i \<notin> ID ` set xs \<Longrightarrow> map (\<lambda>r. if ID r = i then r\<lparr>Name := n\<rparr> else r) xs = xs"
  by (induction xs) auto

lemma filter_absent: "i \<notin> ID ` set xs \<Longrightarrow> filter (\<lambda>r. ID r \<noteq> i) xs = xs"
  by (induction xs) auto

lemma filter_ID_none: "i \<notin> ID ` set xs \<Longrightarrow> filter (\<lambda>r. ID r = i) xs = []"
  by (induction xs) auto

lemma distinct_ID_remove:
  "distinct (map ID xs) \<Longrightarrow> i \<in> ID ` set xs \<Longrightarrow>
   length xs = Suc (length (filter (\<lambda>r. ID r \<noteq> i) xs))"
proof (induction xs)
  case Nil
  then show ?case by simp
next
  case (Cons x xs)
  show ?case
  proof (cases "ID x = i")
    case True
    with Cons.prems(1) have "i \<notin> ID ` set xs" by auto
    then show ?thesis using True by (simp add: filter_absent)
  next
    case False
    with Cons show ?thesis by auto
  qed
qed

lemma rename_keeps_ids:
  "map ID (map (\<lambda>r. if ID r = i then r\<lparr>Name := n\<rparr> else r) xs) = map ID xs"
  by (induction xs) auto

lemma names_after_rename:
  "map Name (map (\<lambda>r. if ID r = i then r\<lparr>Name := n\<rparr> else r) xs) =
   map (\<lambda>r. if ID r = i then n else Name r) xs"
  by (induction xs) auto

lemma rename_names_distinct:
  assumes "distinct (map ID xs)" and "distinct (map Name xs)"
    and "\<forall>r \<in> set xs. ID r \<noteq> i \<longrightarrow> Name r \<noteq> n"
  shows "distinct (map (\<lambda>r. if ID r = i then n else Name r) xs)"
  using assms
proof (induction xs)
  case Nil
  then show ?case by simp
next
  case (Cons x xs)
  have IH: "distinct (map (\<lambda>r. if ID r = i then n else Name r) xs)" using Cons by simp
  show ?case
  proof (cases "ID x = i")
    case True
    with Cons.prems(1) have "i \<notin> ID ` set xs" by simp
    then have absent: "\<forall>y \<in> set xs. ID y \<noteq> i" by blast
    with Cons.prems(3) have "\<forall>y \<in> set xs. Name y \<noteq> n" by simp
    with absent have "n \<notin> (\<lambda>r. if ID r = i then n else Name r) ` set xs" by auto
    then show ?thesis using True IH by simp
  next
    case False
    with Cons.prems(3) have xn: "Name x \<noteq> n" by simp
    have "Name x \<notin> Name ` set xs" using Cons.prems(2) by auto
    with xn have "Name x \<notin> (\<lambda>r. if ID r = i then n else Name r) ` set xs" by auto
    then show ?thesis using False IH by simp
  qed
qed

lemma insert_keeps_unique:
  assumes "unique_rows s" and "n \<notin> Name ` set (items s)"
  shows "unique_rows (s\<lparr>items := items s @ [\<lparr>ID = largest_rowid s + 1, Name = n\<rparr>],
                        sqlite_seq := largest_rowid s + 1\<rparr>)"
proof -
  have "largest_rowid s + 1 \<notin> ID ` set (items s)"
  proof
    assume "largest_rowid s + 1 \<in> ID ` set (items s)"
    then obtain y where "y \<in> set (items s)" and "ID y = largest_rowid s + 1" by auto
    then show False using largest_rowid_row [of y s] by simp
  qed
  then show ?thesis using assms by (simp add: unique_rows_def)
qed

lemma update_keeps_unique:
  assumes "unique_rows s"
    and "\<not> ((\<exists>r \<in> set (items s). ID r = i) \<and> (\<exists>r \<in> set (items s). ID r \<noteq> i \<and> Name r = n))"
  shows "unique_rows (s\<lparr>items := map (\<lambda>r. if ID r = i then r\<lparr>Name := n\<rparr> else r) (items s)\<rparr>)"
proof (cases "i \<in> ID ` set (items s)")
  case True
  then have "\<exists>r \<in> set (items s). ID r = i" by auto
  with assms(2) have "\<forall>r \<in> set (items s). ID r \<noteq> i \<longrightarrow> Name r \<noteq> n" by blast
  then have "distinct (map (\<lambda>r. if ID r = i then n else Name r) (items s))"
    using assms(1) by (intro rename_names_distinct) (simp_all add: unique_rows_def)
  then have "distinct (map Name (map (\<lambda>r. if ID r = i then r\<lparr>Name := n\<rparr> else r) (items s)))"
    by (simp only: names_after_rename)
  moreover have "distinct (map ID (map (\<lambda>r. if ID r = i then r\<lparr>Name := n\<rparr> else r) (items s)))"
    using assms(1) by (simp only: rename_keeps_ids unique_rows_def)
  ultimately show ?thesis by (simp add: unique_rows_def del: map_map)
next
  case False
  then show ?thesis using assms(1) by (simp add: unique_rows_def map_rename_absent)
qed

lemma delete_keeps_unique:
  "unique_rows s \<Longrightarrow> unique_rows (s\<lparr>items := filter (\<lambda>r. ID r \<noteq> i) (items s)\<rparr>)"
  by (simp add: unique_rows_def distinct_map_filter)

lemma serve_keeps_unique:
  assumes "unique_rows s"
  shows "unique_rows (snd (serve f rq s))"
proof (cases rq)
  case GET_items
  then show ?thesis using assms
    by (simp add: getItemsHandler_def db_Query_all_def split: sum.splits)
next
  case (POST_items b)
  then show ?thesis using assms insert_keeps_unique [OF assms]
    by (auto simp: createItemHandler_def db_Exec_insert_def LastInsertId_def Let_def
        split: body.splits)
next
  case (GET_item idStr)
  then show ?thesis using assms
    by (simp add: getItemByIDHandler_def db_QueryRow_Scan_def
        split: option.splits sum.splits sql_error.splits)
next
  case (PUT_item idStr b)
  then show ?thesis using assms update_keeps_unique [OF assms]
    by (auto simp: updateItemHandler_def db_Exec_update_def RowsAffected_def
        split: option.splits body.splits)
next
  case (DELETE_item idStr)
  then show ?thesis using assms delete_keeps_unique [OF assms]
    by (auto simp: deleteItemHandler_def db_Exec_delete_def RowsAffected_def
        split: option.splits)
qed

lemma reachable_unique: "reachable s \<Longrightarrow> unique_rows s"
proof (induction rule: reachable.induct)
  case fresh
  show ?case by (simp add: unique_rows_def empty_db_def)
next
  case (step s f rq r s')
  from step.IH have "unique_rows (snd (serve f rq s))" by (rule serve_keeps_unique)
  then show ?case using step.hyps(2) by simp
qed

lemma created_ids_Cons:
  "created_ids (r # rs) =
     (case response_id r of None \<Rightarrow> created_ids rs | Some i \<Rightarrow> i # created_ids rs)"
  by (simp add: created_ids_def split: option.splits)

lemma created_ids_Nil: "created_ids [] = []"
  by (simp add: created_ids_def)

lemma serve_seq_mono: "sqlite_seq s \<le> sqlite_seq (snd (serve f rq s))"
proof (cases rq)
  case GET_items
  then show ?thesis
    by (simp add: getItemsHandler_def db_Query_all_def split: sum.splits)
next
  case (POST_items b)
  then show ?thesis using largest_rowid_seq [of s]
    by (simp add: createItemHandler_def db_Exec_insert_def LastInsertId_def Let_def
        split: body.splits)
next
  case (GET_item idStr)
  then show ?thesis
    by (simp add: getItemByIDHandler_def db_QueryRow_Scan_def
        split: option.splits sum.splits sql_error.splits)
next
  case (PUT_item idStr b)
  then show ?thesis
    by (simp add: updateItemHandler_def db_Exec_update_def RowsAffected_def
        split: option.splits body.splits)
next
  case (DELETE_item idStr)
  then show ?thesis
    by (simp add: deleteItemHandler_def db_Exec_delete_def RowsAffected_def
        split: option.splits)
qed

lemma serve_created:
  assumes "response_id (fst (serve f rq s)) = Some i"
  shows "i = largest_rowid s + 1 \<and> sqlite_seq (snd (serve f rq s)) = i"
proof (cases rq)
  case GET_items
  then show ?thesis using assms
    by (auto simp: getItemsHandler_def db_Query_all_def response_id_def http_Error_def
        split: sum.splits if_splits)
next
  case (POST_items b)
  then show ?thesis using assms
    by (auto simp: createItemHandler_def db_Exec_insert_def LastInsertId_def Let_def
        response_id_def http_Error_def encode_Item_def split: body.splits if_splits)
next
  case (GET_item idStr)
  then show ?thesis using assms
    by (auto simp: getItemByIDHandler_def db_QueryRow_Scan_def response_id_def http_Error_def
        split: option.splits sum.splits sql_error.splits if_splits)
next
  case (PUT_item idStr b)
  then show ?thesis using assms
    by (auto simp: updateItemHandler_def db_Exec_update_def RowsAffected_def response_id_def
        http_Error_def split: option.splits body.splits if_splits)
next
  case (DELETE_item idStr)
  then show ?thesis using assms
    by (auto simp: deleteItemHandler_def db_Exec_delete_def RowsAffected_def response_id_def
        http_Error_def split: option.splits if_splits)
qed

lemma largest_rowid_bounded: "ids_bounded s \<Longrightarrow> largest_rowid s = sqlite_seq s"
proof -
  assume b: "ids_bounded s"
  have "fold max xs a = a" if "\<forall>x \<in> set xs. x \<le> a" for xs and a :: int
    using that by (induction xs arbitrary: a) (simp_all add: max_def)
  from this [of "map ID (items s)" "sqlite_seq s"] b show ?thesis
    by (simp add: largest_rowid_def ids_bounded_def)
qed

lemma serve_keeps_bounded:
  assumes "ids_bounded s"
  shows "ids_bounded (snd (serve f rq s))"
proof (cases rq)
  case GET_items
  then show ?thesis using assms
    by (simp add: getItemsHandler_def db_Query_all_def split: sum.splits)
next
  case (POST_items b)
  then show ?thesis using assms largest_rowid_bounded [OF assms]
    by (auto simp: createItemHandler_def db_Exec_insert_def LastInsertId_def Let_def
        ids_bounded_def split: body.splits)
next
  case (GET_item idStr)
  then show ?thesis using assms
    by (simp add: getItemByIDHandler_def db_QueryRow_Scan_def
        split: option.splits sum.splits sql_error.splits)
next
  case (PUT_item idStr b)
  then show ?thesis using assms
    by (auto simp: updateItemHandler_def db_Exec_update_def RowsAffected_def ids_bounded_def
        split: option.splits body.splits)
next
  case (DELETE_item idStr)
  then show ?thesis using assms
    by (auto simp: deleteItemHandler_def db_Exec_delete_def RowsAffected_def ids_bounded_def
        split: option.splits)
qed

lemma serve_ids_frame:
  "map ID (items (snd (serve f rq s))) = map ID (items s) \<or>
   (\<exists>i. map ID (items (snd (serve f rq s))) = filter (\<lambda>j. j \<noteq> i) (map ID (items s))) \<or>
   map ID (items (snd (serve f rq s))) = map ID (items s) @ [largest_rowid s + 1]"
proof (cases rq)
  case GET_items
  then show ?thesis
    by (simp add: getItemsHandler_def db_Query_all_def split: sum.splits)
next
  case (POST_items b)
  then show ?thesis
    by (simp add: createItemHandler_def db_Exec_insert_def LastInsertId_def Let_def
        split: body.splits)
next
  case (GET_item idStr)
  then show ?thesis
    by (simp add: getItemByIDHandler_def db_QueryRow_Scan_def
        split: option.splits sum.splits sql_error.splits)
next
  case (PUT_item idStr b)
  then show ?thesis
    by (simp add: updateItemHandler_def db_Exec_update_def RowsAffected_def rename_keeps_ids
        split: option.splits body.splits del: map_map)
next
  case (DELETE_item idStr)
  have "map ID (filter (\<lambda>r. ID r \<noteq> i) xs) = filter (\<lambda>j. j \<noteq> i) (map ID xs)"
    for i and xs :: "Item list"
    by (induction xs) auto
  with DELETE_item show ?thesis
    by (auto simp: deleteItemHandler_def db_Exec_delete_def RowsAffected_def
        split: option.splits)
qed

lemma update_keeps_ids:
  "map ID (items (snd (updateItemHandler f idStr b s))) = map ID (items s)"
  by (simp add: updateItemHandler_def db_Exec_update_def RowsAffected_def rename_keeps_ids
      split: option.splits body.splits del: map_map)

lemma serve_all_created:
  "serve_all reqs s = (rs, s') \<Longrightarrow>
   sqlite_seq s \<le> sqlite_seq s' \<and> sorted_wrt (<) (created_ids rs) \<and>
   (\<forall>i \<in> set (created_ids rs). sqlite_seq s < i \<and> i \<le> sqlite_seq s')"
proof (induction reqs arbitrary: s rs s')
  case Nil
  then show ?case by (auto simp: created_ids_Nil)
next
  case (Cons p reqs)
  obtain f rq where p: "p = (f, rq)" by (cases p)
  obtain r s1 where s1: "serve f rq s = (r, s1)" by (cases "serve f rq s")
  obtain rs1 s2 where s2: "serve_all reqs s1 = (rs1, s2)" by (cases "serve_all reqs s1")
  from Cons.prems p s1 s2 have rs: "rs = r # rs1" and s': "s' = s2" by simp_all
  note IH = Cons.IH [OF s2]
  have m: "sqlite_seq s \<le> sqlite_seq s1" using serve_seq_mono [of s f rq] s1 by simp
  show ?case
  proof (cases "response_id r")
    case None
    then show ?thesis using IH m rs s' by (auto simp: created_ids_Cons)
  next
    case (Some i)
    then have "response_id (fst (serve f rq s)) = Some i" using s1 by simp
    from serve_created [OF this] have i: "i = largest_rowid s + 1" "sqlite_seq s1 = i"
      using s1 by simp_all
    have "sqlite_seq s < i" using i(1) largest_rowid_seq [of s] by simp
    then show ?thesis using IH i(2) rs s' Some by (auto simp: created_ids_Cons)
  qed
qed

lemma serve_all_bounded:
  "ids_bounded s \<Longrightarrow> ids_bounded (snd (serve_all reqs s))"
proof (induction reqs arbitrary: s)
  case Nil
  then show ?case by simp
next
  case (Cons p reqs)
  obtain f rq where p: "p = (f, rq)" by (cases p)
  obtain r s1 where s1: "serve f rq s = (r, s1)" by (cases "serve f rq s")
  have "ids_bounded s1" using serve_keeps_bounded [OF Cons.prems, of f rq] s1 by simp
  then have "ids_bounded (snd (serve_all reqs s1))" by (rule Cons.IH)
  then show ?case using p s1 by (cases "serve_all reqs s1") simp
qed

lemma reachable_bounded: "reachable s \<Longrightarrow> ids_bounded s"
proof (induction rule: reachable.induct)
  case fresh
  show ?case by (simp add: ids_bounded_def empty_db_def)
next
  case (step s f rq r s')
  from step.IH have "ids_bounded (snd (serve f rq s))" by (rule serve_keeps_bounded)
  then show ?case using step.hyps(2) by simp
qed

subsection \<open>Round trip of create and get\<close>

text \<open>
  C1. A \<open>POST /items\<close> with the body \<open>{"name": N}\<close> (whatever id the body carries) that
  answers 201 answers with the JSON object of some id \<open>i\<close> and the name \<open>N\<close>, and then
  \<open>GET /items/i\<close> answers 200 with the same object \<open>{"id": i, "name": N}\<close>, directly or
  after any requests among which none updates or deletes \<open>i\<close>. The create does answer 201
  when the store works, no row has the name \<open>N\<close> and the rowids are not used up.
\<close>

theorem create_then_get_roundtrip:
  assumes "createItemHandler f (Decoded \<lparr>ID = j, Name = N\<rparr>) s = (r, s')"
  shows "(f = NoFault \<and> N \<notin> Name ` set (items s) \<and> largest_rowid s < max_rowid
            \<longrightarrow> status r = 201) \<and>
         (status r = 201 \<longrightarrow>
            (\<exists>i. payload r = Json (JObj [(''id'', JInt i), (''name'', JStr N)]) \<and>
                 (\<forall>(reqs :: (fault \<times> request) list) idStr.
                    (\<forall>p \<in> set reqs. \<not> touches i (snd p)) \<and> Atoi idStr = Some i \<longrightarrow>
                    getItemByIDHandler NoFault idStr (snd (serve_all reqs s')) =
                      (\<lparr>status = 200,
                        payload = Json (JObj [(''id'', JInt i), (''name'', JStr N)])\<rparr>,
                       snd (serve_all reqs s')))))"
proof (intro conjI impI)
  assume "f = NoFault \<and> N \<notin> Name ` set (items s) \<and> largest_rowid s < max_rowid"
  then show "status r = 201" using assms
    by (auto simp: createItemHandler_def db_Exec_insert_def LastInsertId_def Let_def)
next
  assume ok: "status r = 201"
  let ?i = "largest_rowid s + 1"
  let ?x = "\<lparr>ID = ?i, Name = N\<rparr>"
  from assms ok have r: "r = \<lparr>status = 201, payload = Json (encode_Item ?x)\<rparr>"
    and s': "s' = s\<lparr>items := items s @ [?x], sqlite_seq := ?i\<rparr>"
    by (auto simp: createItemHandler_def db_Exec_insert_def LastInsertId_def Let_def
        http_Error_def split: if_splits)
  have fresh: "?i \<notin> ID ` set (items s)"
  proof
    assume "?i \<in> ID ` set (items s)"
    then obtain y where "y \<in> set (items s)" and "ID y = ?i" by auto
    then show False using largest_rowid_row [of y s] by simp
  qed
  have found: "find (\<lambda>r. ID r = ?i) (items s') = Some ?x"
    using fresh by (simp add: s' find_append_last)
  show "\<exists>i. payload r = Json (JObj [(''id'', JInt i), (''name'', JStr N)]) \<and>
        (\<forall>(reqs :: (fault \<times> request) list) idStr.
            (\<forall>p \<in> set reqs. \<not> touches i (snd p)) \<and> Atoi idStr = Some i \<longrightarrow>
            getItemByIDHandler NoFault idStr (snd (serve_all reqs s')) =
              (\<lparr>status = 200, payload = Json (JObj [(''id'', JInt i), (''name'', JStr N)])\<rparr>,
               snd (serve_all reqs s')))"
  proof (intro exI [of _ ?i] conjI allI impI)
    show "payload r = Json (JObj [(''id'', JInt ?i), (''name'', JStr N)])"
      by (simp add: r encode_Item_def)
  next
    fix reqs :: "(fault \<times> request) list" and idStr
    assume h: "(\<forall>p \<in> set reqs. \<not> touches ?i (snd p)) \<and> Atoi idStr = Some ?i"
    then have "find (\<lambda>r. ID r = ?i) (items (snd (serve_all reqs s'))) = Some ?x"
      using found by (intro serve_all_keeps_row) simp_all
    then show "getItemByIDHandler NoFault idStr (snd (serve_all reqs s')) =
              (\<lparr>status = 200, payload = Json (JObj [(''id'', JInt ?i), (''name'', JStr N)])\<rparr>,
               snd (serve_all reqs s'))"
      using h get_of_found [of ?i "snd (serve_all reqs s')" ?x idStr]
      by (simp add: encode_Item_def)
  qed
qed

theorem create_then_get_roundtrip_witness:
  "createItemHandler NoFault (Decoded \<lparr>ID = 0, Name = ''apple''\<rparr>) empty_db =
     (\<lparr>status = 201, payload = Json (JObj [(''id'', JInt 1), (''name'', JStr ''apple'')])\<rparr>,
      \<lparr>items = [\<lparr>ID = 1, Name = ''apple''\<rparr>], sqlite_seq = 1\<rparr>) \<and>
   getItemByIDHandler NoFault ''1''
     (snd (serve_all [(NoFault, POST_items (Decoded \<lparr>ID = 0, Name = ''banana''\<rparr>)),
                      (NoFault, DELETE_item ''2'')]
            \<lparr>items = [\<lparr>ID = 1, Name = ''apple''\<rparr>], sqlite_seq = 1\<rparr>)) =
     (\<lparr>status = 200, payload = Json (JObj [(''id'', JInt 1), (''name'', JStr ''apple'')])\<rparr>,
      \<lparr>items = [\<lparr>ID = 1, Name = ''apple''\<rparr>], sqlite_seq = 2\<rparr>)"
proof -
  let ?reqs = "[(NoFault, POST_items (Decoded \<lparr>ID = 0, Name = ''banana''\<rparr>)),
                (NoFault, DELETE_item ''2'')]"
  let ?s1 = "\<lparr>items = [\<lparr>ID = 1, Name = ''apple''\<rparr>], sqlite_seq = 1\<rparr>"
  have h: "createItemHandler NoFault (Decoded \<lparr>ID = 0, Name = ''apple''\<rparr>) empty_db =
     (\<lparr>status = 201, payload = Json (JObj [(''id'', JInt 1), (''name'', JStr ''apple'')])\<rparr>,
      ?s1)"
    by (simp add: createItemHandler_def db_Exec_insert_def LastInsertId_def largest_rowid_def
        max_rowid_def empty_db_def encode_Item_def)
  have a1: "Atoi ''1'' = Some 1" and a2: "Atoi ''2'' = Some 2"
    by (simp_all add: Atoi_def digit_val_def)
  have run: "snd (serve_all ?reqs ?s1) = \<lparr>items = [\<lparr>ID = 1, Name = ''apple''\<rparr>], sqlite_seq = 2\<rparr>"
    by (simp add: createItemHandler_def db_Exec_insert_def LastInsertId_def largest_rowid_def
        max_rowid_def deleteItemHandler_def db_Exec_delete_def RowsAffected_def a2)
  have nt: "\<forall>p \<in> set ?reqs. \<not> touches 1 (snd p)"
    by (simp add: touches_def a2)
  from create_then_get_roundtrip [OF h] obtain i
    where p: "Json (JObj [(''id'', JInt 1), (''name'', JStr ''apple'')]) =
              Json (JObj [(''id'', JInt i), (''name'', JStr ''apple'')])"
      and g: "\<forall>(reqs :: (fault \<times> request) list) idStr.
                (\<forall>p \<in> set reqs. \<not> touches i (snd p)) \<and> Atoi idStr = Some i \<longrightarrow>
                getItemByIDHandler NoFault idStr (snd (serve_all reqs ?s1)) =
                  (\<lparr>status = 200,
                    payload = Json (JObj [(''id'', JInt i), (''name'', JStr ''apple'')])\<rparr>,
                   snd (serve_all reqs ?s1))"
    by auto
  from p have i: "i = 1" by simp
  from g i nt a1 have "getItemByIDHandler NoFault ''1'' (snd (serve_all ?reqs ?s1)) =
     (\<lparr>status = 200, payload = Json (JObj [(''id'', JInt 1), (''name'', JStr ''apple'')])\<rparr>,
      snd (serve_all ?reqs ?s1))"
    by blast
  then show ?thesis using h run by simp
qed

subsection \<open>Listing an empty table\<close>

text \<open>
  C2. On the table as \<open>initDB\<close> creates it, \<open>GET /items\<close> answers 200, and the payload is
  the encoding of the slice \<open>items\<close>, which no \<open>append\<close> has touched and which is still
  \<open>nil\<close>: the JSON value \<open>null\<close>, not the empty array.
\<close>

theorem empty_table_list_is_null:
  "initDB True True True None = Some empty_db \<and>
   getItemsHandler NoFault empty_db = (\<lparr>status = 200, payload = Json JNull\<rparr>, empty_db) \<and>
   payload (fst (getItemsHandler NoFault empty_db)) \<noteq> Json (JArr [])"
  by (simp add: initDB_def getItemsHandler_def db_Query_all_def empty_db_def)

subsection \<open>Uniqueness of ids and names\<close>

text \<open>
  C3. In every table reachable from the empty one, no two rows have the same id and no
  two rows have the same name, and every request, create, update and delete among them,
  keeps a table that is so. (A name is a Go string bound to a \<open>NOT NULL\<close> column, never
  NULL.) Nothing keeps a name from being the empty string.
\<close>

theorem stored_rows_unique:
  "(reachable s \<longrightarrow> distinct (map ID (items s)) \<and> distinct (map Name (items s))) \<and>
   (distinct (map ID (items s)) \<and> distinct (map Name (items s)) \<longrightarrow>
      distinct (map ID (items (snd (serve f rq s)))) \<and>
      distinct (map Name (items (snd (serve f rq s)))))"
  using reachable_unique [of s] serve_keeps_unique [of s f rq]
  by (simp add: unique_rows_def)

theorem stored_rows_unique_witness:
  "reachable \<lparr>items = [\<lparr>ID = 1, Name = ''apple''\<rparr>], sqlite_seq = 1\<rparr> \<and>
   distinct (map ID (items \<lparr>items = [\<lparr>ID = 1, Name = ''apple''\<rparr>], sqlite_seq = 1\<rparr>)) \<and>
   distinct (map Name (items \<lparr>items = [\<lparr>ID = 1, Name = ''apple''\<rparr>], sqlite_seq = 1\<rparr>)) \<and>
   distinct (map ID (items (snd (serve NoFault (POST_items (Decoded \<lparr>ID = 0, Name = ''banana''\<rparr>))
       \<lparr>items = [\<lparr>ID = 1, Name = ''apple''\<rparr>], sqlite_seq = 1\<rparr>)))) \<and>
   snd (serve NoFault (POST_items (Decoded \<lparr>ID = 0, Name = ''banana''\<rparr>))
       \<lparr>items = [\<lparr>ID = 1, Name = ''apple''\<rparr>], sqlite_seq = 1\<rparr>) =
     \<lparr>items = [\<lparr>ID = 1, Name = ''apple''\<rparr>, \<lparr>ID = 2, Name = ''banana''\<rparr>], sqlite_seq = 2\<rparr>"
proof -
  let ?s = "\<lparr>items = [\<lparr>ID = 1, Name = ''apple''\<rparr>], sqlite_seq = 1\<rparr>"
  have h: "serve NoFault (POST_items (Decoded \<lparr>ID = 0, Name = ''apple''\<rparr>)) empty_db =
     (\<lparr>status = 201, payload = Json (JObj [(''id'', JInt 1), (''name'', JStr ''apple'')])\<rparr>, ?s)"
    by (simp add: createItemHandler_def db_Exec_insert_def LastInsertId_def largest_rowid_def
        max_rowid_def empty_db_def encode_Item_def)
  have r: "reachable ?s"
    using reachable.fresh h by (rule reachable.step)
  have e: "snd (serve NoFault (POST_items (Decoded \<lparr>ID = 0, Name = ''banana''\<rparr>)) ?s) =
     \<lparr>items = [\<lparr>ID = 1, Name = ''apple''\<rparr>, \<lparr>ID = 2, Name = ''banana''\<rparr>], sqlite_seq = 2\<rparr>"
    by (simp add: createItemHandler_def db_Exec_insert_def LastInsertId_def largest_rowid_def
        max_rowid_def)
  show ?thesis
    using r e stored_rows_unique [of ?s NoFault "POST_items (Decoded \<lparr>ID = 0, Name = ''banana''\<rparr>)"]
    by simp
qed

text \<open>
  A name can be empty: on the empty table, \<open>POST /items\<close> with the body \<open>{"name": ""}\<close>
  is answered 201 and the row \<open>(1, "")\<close> is stored, in a reachable table.
\<close>

theorem empty_name_is_stored:
  "createItemHandler NoFault (Decoded \<lparr>ID = 0, Name = ''''\<rparr>) empty_db =
     (\<lparr>status = 201, payload = Json (JObj [(''id'', JInt 1), (''name'', JStr '''')])\<rparr>,
      \<lparr>items = [\<lparr>ID = 1, Name = ''''\<rparr>], sqlite_seq = 1\<rparr>) \<and>
   reachable \<lparr>items = [\<lparr>ID = 1, Name = ''''\<rparr>], sqlite_seq = 1\<rparr>"
proof -
  have h: "serve NoFault (POST_items (Decoded \<lparr>ID = 0, Name = ''''\<rparr>)) empty_db =
     (\<lparr>status = 201, payload = Json (JObj [(''id'', JInt 1), (''name'', JStr '''')])\<rparr>,
      \<lparr>items = [\<lparr>ID = 1, Name = ''''\<rparr>], sqlite_seq = 1\<rparr>)"
    by (simp add: createItemHandler_def db_Exec_insert_def LastInsertId_def largest_rowid_def
        max_rowid_def empty_db_def encode_Item_def)
  have "reachable \<lparr>items = [\<lparr>ID = 1, Name = ''''\<rparr>], sqlite_seq = 1\<rparr>"
    using reachable.fresh h by (rule reachable.step)
  then show ?thesis using h by simp
qed

subsection \<open>A second create with the same name\<close>

text \<open>
  C4. When a row already has the name \<open>N\<close>, a \<open>POST /items\<close> with the name \<open>N\<close> answers
  500, the status of every other store error, and leaves the table as it was.
\<close>

theorem duplicate_name_create_fails:
  "N \<in> Name ` set (items s) \<Longrightarrow>
   createItemHandler f (Decoded \<lparr>ID = j, Name = N\<rparr>) s =
     (http_Error ''Failed to create item'' 500, s) \<and>
   status (fst (createItemHandler f (Decoded \<lparr>ID = j, Name = N\<rparr>) s)) = 500"
  by (simp add: handler_defs store_defs http_Error_def)

theorem duplicate_name_create_fails_witness:
  "''apple'' \<in> Name ` set (items \<lparr>items = [\<lparr>ID = 1, Name = ''apple''\<rparr>], sqlite_seq = 1\<rparr>) \<and>
   createItemHandler NoFault (Decoded \<lparr>ID = 0, Name = ''apple''\<rparr>)
       \<lparr>items = [\<lparr>ID = 1, Name = ''apple''\<rparr>], sqlite_seq = 1\<rparr> =
     (\<lparr>status = 500, payload = Plain (''Failed to create item'' @ [CHR 0x0A])\<rparr>,
      \<lparr>items = [\<lparr>ID = 1, Name = ''apple''\<rparr>], sqlite_seq = 1\<rparr>)"
proof -
  have h: "''apple'' \<in> Name ` set (items \<lparr>items = [\<lparr>ID = 1, Name = ''apple''\<rparr>], sqlite_seq = 1\<rparr>)"
    by simp
  show ?thesis
    using h duplicate_name_create_fails [OF h, of NoFault 0] by (simp add: http_Error_def)
qed

subsection \<open>Requests that fail validation\<close>



subsection \<open>Update\<close>

text \<open>
  C6. A \<open>PUT /items/i\<close> that answers 200 had a path id that parses to the id \<open>i\<close> of a stored
  row and a body that decodes. Afterwards the table has the same number of rows, every row
  has the id it had, every row with another id is unchanged, the row \<open>i\<close> has the name of the
  body, and the id in the answer is the path id \<open>i\<close>, whatever id the body carries.
\<close>

theorem update_changes_only_name:
  assumes "updateItemHandler f idStr b s = (r, s')" and "status r = 200"
  shows "\<exists>i it. Atoi idStr = Some i \<and> b = Decoded it \<and> i \<in> ID ` set (items s) \<and>
           payload r = Json (JObj [(''id'', JInt i), (''name'', JStr (Name it))]) \<and>
           sqlite_seq s' = sqlite_seq s \<and>
           length (items s') = length (items s) \<and>
           (\<forall>k < length (items s).
              ID (items s' ! k) = ID (items s ! k) \<and>
              (ID (items s ! k) \<noteq> i \<longrightarrow> items s' ! k = items s ! k) \<and>
              (ID (items s ! k) = i \<longrightarrow> Name (items s' ! k) = Name it))"
proof -
  from assms obtain i where i: "Atoi idStr = Some i"
    by (cases "Atoi idStr") (auto simp: updateItemHandler_def http_Error_def)
  from assms i obtain it where b: "b = Decoded it"
    by (cases b) (auto simp: updateItemHandler_def http_Error_def)
  from assms i b have r: "r = \<lparr>status = 200, payload = Json (encode_Item (it\<lparr>ID := i\<rparr>))\<rparr>"
    and s': "s' = s\<lparr>items := map (\<lambda>x. if ID x = i then x\<lparr>Name := Name it\<rparr> else x) (items s)\<rparr>"
    and n: "length (filter (\<lambda>x. ID x = i) (items s)) \<noteq> 0"
    by (auto simp: updateItemHandler_def db_Exec_update_def RowsAffected_def http_Error_def
        split: if_splits)
  from n have mem: "i \<in> ID ` set (items s)"
    using filter_ID_none [of i "items s"] by auto
  have p: "payload r = Json (JObj [(''id'', JInt i), (''name'', JStr (Name it))])"
    by (simp add: r encode_Item_def)
  show ?thesis using i b mem p by (auto simp: s')
qed

theorem update_changes_only_name_witness:
  "updateItemHandler NoFault ''1'' (Decoded \<lparr>ID = 7, Name = ''avocado''\<rparr>)
       \<lparr>items = [\<lparr>ID = 1, Name = ''apple''\<rparr>, \<lparr>ID = 2, Name = ''banana''\<rparr>], sqlite_seq = 2\<rparr> =
     (\<lparr>status = 200, payload = Json (JObj [(''id'', JInt 1), (''name'', JStr ''avocado'')])\<rparr>,
      \<lparr>items = [\<lparr>ID = 1, Name = ''avocado''\<rparr>, \<lparr>ID = 2, Name = ''banana''\<rparr>], sqlite_seq = 2\<rparr>) \<and>
   (\<exists>i it. Atoi ''1'' = Some i \<and> Decoded \<lparr>ID = 7, Name = ''avocado''\<rparr> = Decoded it \<and>
      Json (JObj [(''id'', JInt 1), (''name'', JStr ''avocado'')]) =
        Json (JObj [(''id'', JInt i), (''name'', JStr (Name it))]))"
proof -
  have a: "Atoi ''1'' = Some 1" by (simp add: Atoi_def digit_val_def)
  have h: "updateItemHandler NoFault ''1'' (Decoded \<lparr>ID = 7, Name = ''avocado''\<rparr>)
       \<lparr>items = [\<lparr>ID = 1, Name = ''apple''\<rparr>, \<lparr>ID = 2, Name = ''banana''\<rparr>], sqlite_seq = 2\<rparr> =
     (\<lparr>status = 200, payload = Json (JObj [(''id'', JInt 1), (''name'', JStr ''avocado'')])\<rparr>,
      \<lparr>items = [\<lparr>ID = 1, Name = ''avocado''\<rparr>, \<lparr>ID = 2, Name = ''banana''\<rparr>], sqlite_seq = 2\<rparr>)"
    by (simp add: updateItemHandler_def db_Exec_update_def RowsAffected_def a encode_Item_def)
  have st: "status \<lparr>status = 200,
      payload = Json (JObj [(''id'', JInt 1), (''name'', JStr ''avocado'')])\<rparr> = 200" by simp
  from update_changes_only_name [OF h st] show ?thesis using h by auto
qed

subsection \<open>Ids without a row\<close>

text \<open>
  C7. For a path id that parses to an integer \<open>i\<close> which no stored row has, and a store that
  works, \<open>GET /items/i\<close>, \<open>PUT /items/i\<close> with a body that decodes, and
  \<open>DELETE /items/i\<close> all answer 404 and leave the table as it was; so does
  \<open>GET /items/999999\<close> on the empty table.
\<close>

theorem missing_id_not_found:
  assumes "Atoi idStr = Some i" and "i \<notin> ID ` set (items s)"
  shows "getItemByIDHandler NoFault idStr s = (http_Error ''Item not found'' 404, s) \<and>
         updateItemHandler NoFault idStr (Decoded it) s =
           (http_Error ''Item not found or no changes made'' 404, s) \<and>
         deleteItemHandler NoFault idStr s = (http_Error ''Item not found'' 404, s)"
proof (intro conjI)
  have "find (\<lambda>r. ID r = i) (items s) = None"
    using assms(2) by (simp add: find_None_iff_ID)
  then show "getItemByIDHandler NoFault idStr s = (http_Error ''Item not found'' 404, s)"
    using assms(1) by (simp add: getItemByIDHandler_def db_QueryRow_Scan_def)
next
  have "\<not> (\<exists>r \<in> set (items s). ID r = i)" using assms(2) by auto
  then show "updateItemHandler NoFault idStr (Decoded it) s =
           (http_Error ''Item not found or no changes made'' 404, s)"
    using assms
    by (simp add: updateItemHandler_def db_Exec_update_def RowsAffected_def
        map_rename_absent filter_ID_none)
next
  show "deleteItemHandler NoFault idStr s = (http_Error ''Item not found'' 404, s)"
    using assms
    by (simp add: deleteItemHandler_def db_Exec_delete_def RowsAffected_def
        filter_absent filter_ID_none)
qed

theorem missing_id_not_found_witness:
  "Atoi ''999999'' = Some 999999 \<and> 999999 \<notin> ID ` set (items empty_db) \<and>
   getItemByIDHandler NoFault ''999999'' empty_db =
     (\<lparr>status = 404, payload = Plain (''Item not found'' @ [CHR 0x0A])\<rparr>, empty_db) \<and>
   updateItemHandler NoFault ''999999'' (Decoded \<lparr>ID = 0, Name = ''pear''\<rparr>) empty_db =
     (\<lparr>status = 404, payload = Plain (''Item not found or no changes made'' @ [CHR 0x0A])\<rparr>,
      empty_db) \<and>
   deleteItemHandler NoFault ''999999'' empty_db =
     (\<lparr>status = 404, payload = Plain (''Item not found'' @ [CHR 0x0A])\<rparr>, empty_db)"
proof -
  have a: "Atoi ''999999'' = Some 999999" by (simp add: Atoi_def digit_val_def)
  have b: "999999 \<notin> ID ` set (items empty_db)" by (simp add: empty_db_def)
  show ?thesis
    using a b missing_id_not_found [OF a b, of "\<lparr>ID = 0, Name = ''pear''\<rparr>"]
    by (simp add: http_Error_def)
qed

subsection \<open>Delete, then get\<close>

text \<open>
  C8. A \<open>DELETE /items/i\<close> that answers 204 has an empty payload; the path id parses to the
  id \<open>i\<close> of a stored row, the table afterwards is the table before without the rows of id
  \<open>i\<close> (exactly one row less when the ids are unique) and a following \<open>GET /items/i\<close>
  answers 404.
\<close>

theorem delete_then_get:
  assumes "deleteItemHandler f idStr s = (r, s')" and "status r = 204"
  shows "payload r = Empty \<and>
         (\<exists>i. Atoi idStr = Some i \<and> i \<in> ID ` set (items s) \<and>
              items s' = filter (\<lambda>x. ID x \<noteq> i) (items s) \<and>
              sqlite_seq s' = sqlite_seq s \<and>
              i \<notin> ID ` set (items s') \<and>
              (distinct (map ID (items s)) \<longrightarrow> length (items s) = Suc (length (items s'))) \<and>
              getItemByIDHandler NoFault idStr s' = (http_Error ''Item not found'' 404, s'))"
proof -
  from assms obtain i where i: "Atoi idStr = Some i"
    by (cases "Atoi idStr") (auto simp: deleteItemHandler_def http_Error_def)
  from assms i have r: "r = \<lparr>status = 204, payload = Empty\<rparr>"
    and s': "s' = s\<lparr>items := filter (\<lambda>x. ID x \<noteq> i) (items s)\<rparr>"
    and n: "length (filter (\<lambda>x. ID x = i) (items s)) \<noteq> 0"
    by (auto simp: deleteItemHandler_def db_Exec_delete_def RowsAffected_def http_Error_def
        split: if_splits)
  from n have mem: "i \<in> ID ` set (items s)"
    using filter_ID_none [of i "items s"] by auto
  have gone: "i \<notin> ID ` set (items s')" by (auto simp: s')
  have "find (\<lambda>x. ID x = i) (items s') = None"
    using gone by (simp add: find_None_iff_ID)
  then have get: "getItemByIDHandler NoFault idStr s' = (http_Error ''Item not found'' 404, s')"
    using i by (simp add: getItemByIDHandler_def db_QueryRow_Scan_def)
  have len: "distinct (map ID (items s)) \<longrightarrow> length (items s) = Suc (length (items s'))"
    using mem by (auto simp: s' dest: distinct_ID_remove)
  show ?thesis using r s' i mem gone get len by simp
qed

theorem delete_then_get_witness:
  "deleteItemHandler NoFault ''2''
       \<lparr>items = [\<lparr>ID = 1, Name = ''apple''\<rparr>, \<lparr>ID = 2, Name = ''banana''\<rparr>], sqlite_seq = 2\<rparr> =
     (\<lparr>status = 204, payload = Empty\<rparr>,
      \<lparr>items = [\<lparr>ID = 1, Name = ''apple''\<rparr>], sqlite_seq = 2\<rparr>) \<and>
   getItemByIDHandler NoFault ''2'' \<lparr>items = [\<lparr>ID = 1, Name = ''apple''\<rparr>], sqlite_seq = 2\<rparr> =
     (\<lparr>status = 404, payload = Plain (''Item not found'' @ [CHR 0x0A])\<rparr>,
      \<lparr>items = [\<lparr>ID = 1, Name = ''apple''\<rparr>], sqlite_seq = 2\<rparr>)"
proof -
  have a: "Atoi ''2'' = Some 2" by (simp add: Atoi_def digit_val_def)
  have h: "deleteItemHandler NoFault ''2''
       \<lparr>items = [\<lparr>ID = 1, Name = ''apple''\<rparr>, \<lparr>ID = 2, Name = ''banana''\<rparr>], sqlite_seq = 2\<rparr> =
     (\<lparr>status = 204, payload = Empty\<rparr>,
      \<lparr>items = [\<lparr>ID = 1, Name = ''apple''\<rparr>], sqlite_seq = 2\<rparr>)"
    by (simp add: deleteItemHandler_def db_Exec_delete_def RowsAffected_def a)
  have st: "status \<lparr>status = 204, payload = Empty\<rparr> = 204" by simp
  show ?thesis using h delete_then_get [OF h st] by (auto simp: http_Error_def)
qed

subsection \<open>Assignment of ids\<close>

text \<open>
  C9. Along every run of requests from a table \<open>s\<close>, the ids that the 201 responses
  announce are strictly increasing in the order of the requests, hence distinct, each is
  greater than the counter of \<open>s\<close> and, when the counter bounds the ids of \<open>s\<close> as it does
  in every reachable table, greater than every id stored in \<open>s\<close>; the bound is kept by the
  run. No request changes the id of a row: an update leaves the list of ids as it is, and
  any request leaves it as it is, removes the entries of one id, or appends the new
  rowid.
\<close>

theorem ids_increase_and_never_change:
  assumes "serve_all reqs s = (rs, s')"
  shows "sorted_wrt (<) (created_ids rs) \<and> distinct (created_ids rs) \<and>
         (\<forall>i \<in> set (created_ids rs).
             sqlite_seq s < i \<and> i \<le> sqlite_seq s' \<and>
             (ids_bounded s \<longrightarrow> (\<forall>x \<in> set (items s). ID x < i))) \<and>
         (reachable s \<longrightarrow> ids_bounded s) \<and>
         (ids_bounded s \<longrightarrow> ids_bounded s') \<and>
         map ID (items (snd (updateItemHandler f idStr b s))) = map ID (items s) \<and>
         (map ID (items (snd (serve f rq s))) = map ID (items s) \<or>
          (\<exists>i. map ID (items (snd (serve f rq s))) = filter (\<lambda>j. j \<noteq> i) (map ID (items s))) \<or>
          map ID (items (snd (serve f rq s))) = map ID (items s) @ [largest_rowid s + 1])"
proof -
  note c = serve_all_created [OF assms]
  from c have srt: "sorted_wrt (<) (created_ids rs)" by simp
  then have dst: "distinct (created_ids rs)"
    by (simp add: strict_sorted_iff)
  have old: "\<forall>i \<in> set (created_ids rs). ids_bounded s \<longrightarrow> (\<forall>x \<in> set (items s). ID x < i)"
    using c by (fastforce simp: ids_bounded_def)
  have bnd: "ids_bounded s \<longrightarrow> ids_bounded s'"
    using serve_all_bounded [of s reqs] assms by simp
  show ?thesis
    using srt dst c old bnd reachable_bounded [of s] update_keeps_ids [of f idStr b s]
      serve_ids_frame [of f rq s]
    by simp
qed

theorem ids_increase_and_never_change_witness:
  "serve_all [(NoFault, POST_items (Decoded \<lparr>ID = 0, Name = ''apple''\<rparr>)),
              (NoFault, POST_items (Decoded \<lparr>ID = 0, Name = ''banana''\<rparr>)),
              (NoFault, DELETE_item ''2''),
              (NoFault, POST_items (Decoded \<lparr>ID = 0, Name = ''cherry''\<rparr>))] empty_db =
     ([\<lparr>status = 201, payload = Json (JObj [(''id'', JInt 1), (''name'', JStr ''apple'')])\<rparr>,
       \<lparr>status = 201, payload = Json (JObj [(''id'', JInt 2), (''name'', JStr ''banana'')])\<rparr>,
       \<lparr>status = 204, payload = Empty\<rparr>,
       \<lparr>status = 201, payload = Json (JObj [(''id'', JInt 3), (''name'', JStr ''cherry'')])\<rparr>],
      \<lparr>items = [\<lparr>ID = 1, Name = ''apple''\<rparr>, \<lparr>ID = 3, Name = ''cherry''\<rparr>], sqlite_seq = 3\<rparr>) \<and>
   created_ids
     [\<lparr>status = 201, payload = Json (JObj [(''id'', JInt 1), (''name'', JStr ''apple'')])\<rparr>,
      \<lparr>status = 201, payload = Json (JObj [(''id'', JInt 2), (''name'', JStr ''banana'')])\<rparr>,
      \<lparr>status = 204, payload = Empty\<rparr>,
      \<lparr>status = 201, payload = Json (JObj [(''id'', JInt 3), (''name'', JStr ''cherry'')])\<rparr>] =
     [1, 2, 3] \<and>
   sorted_wrt (<) (created_ids
     [\<lparr>status = 201, payload = Json (JObj [(''id'', JInt 1), (''name'', JStr ''apple'')])\<rparr>,
      \<lparr>status = 201, payload = Json (JObj [(''id'', JInt 2), (''name'', JStr ''banana'')])\<rparr>,
      \<lparr>status = 204, payload = Empty\<rparr>,
      \<lparr>status = 201, payload = Json (JObj [(''id'', JInt 3), (''name'', JStr ''cherry'')])\<rparr>]) \<and>
   ids_bounded empty_db \<and>
   ids_bounded \<lparr>items = [\<lparr>ID = 1, Name = ''apple''\<rparr>, \<lparr>ID = 3, Name = ''cherry''\<rparr>], sqlite_seq = 3\<rparr>"
proof -
  have a: "Atoi ''2'' = Some 2" by (simp add: Atoi_def digit_val_def)
  have h: "serve_all [(NoFault, POST_items (Decoded \<lparr>ID = 0, Name = ''apple''\<rparr>)),
              (NoFault, POST_items (Decoded \<lparr>ID = 0, Name = ''banana''\<rparr>)),
              (NoFault, DELETE_item ''2''),
              (NoFault, POST_items (Decoded \<lparr>ID = 0, Name = ''cherry''\<rparr>))] empty_db =
     ([\<lparr>status = 201, payload = Json (JObj [(''id'', JInt 1), (''name'', JStr ''apple'')])\<rparr>,
       \<lparr>status = 201, payload = Json (JObj [(''id'', JInt 2), (''name'', JStr ''banana'')])\<rparr>,
       \<lparr>status = 204, payload = Empty\<rparr>,
       \<lparr>status = 201, payload = Json (JObj [(''id'', JInt 3), (''name'', JStr ''cherry'')])\<rparr>],
      \<lparr>items = [\<lparr>ID = 1, Name = ''apple''\<rparr>, \<lparr>ID = 3, Name = ''cherry''\<rparr>], sqlite_seq = 3\<rparr>)"
    by (simp add: createItemHandler_def db_Exec_insert_def LastInsertId_def largest_rowid_def
        max_rowid_def deleteItemHandler_def db_Exec_delete_def RowsAffected_def a empty_db_def
        encode_Item_def)
  have c: "created_ids
     [\<lparr>status = 201, payload = Json (JObj [(''id'', JInt 1), (''name'', JStr ''apple'')])\<rparr>,
      \<lparr>status = 201, payload = Json (JObj [(''id'', JInt 2), (''name'', JStr ''banana'')])\<rparr>,
      \<lparr>status = 204, payload = Empty\<rparr>,
      \<lparr>status = 201, payload = Json (JObj [(''id'', JInt 3), (''name'', JStr ''cherry'')])\<rparr>] =
     [1, 2, 3]"
    by (simp add: created_ids_def response_id_def)
  have e: "ids_bounded empty_db" by (simp add: ids_bounded_def empty_db_def)
  show ?thesis
    using h c e
      ids_increase_and_never_change [OF h, where f = NoFault and idStr = "''2''"
        and b = "Decoded \<lparr>ID = 0, Name = ''pear''\<rparr>" and rq = GET_items]
    by simp
qed

subsection \<open>Reads\<close>

text \<open>
  C10. \<open>GET /items\<close> and \<open>GET /items/{id}\<close> leave the table as it was, for every table,
  every path id and every failure of the store, whatever the status of the answer.
\<close>

theorem reads_do_not_mutate:
  "snd (getItemsHandler f s) = s \<and> snd (getItemByIDHandler f idStr s) = s"
  by (simp add: handler_defs store_defs split: sum.splits option.splits sql_error.splits)

end
